theory Spec2Isabelle
  imports Main
begin

section \<open>Python values shared by the whole module\<close>

text \<open>
  The exceptions that the functions of \<^verbatim>\<open>bookdata/db.py\<close> and the library calls they
  make can raise. \<open>DatabaseError\<close> is \<^verbatim>\<open>psycopg2.Error\<close>; its argument is the
  \<^verbatim>\<open>pgcode\<close> attribute, which is \<^verbatim>\<open>None\<close> for errors that do not come from the server.
\<close>

datatype exc =
    ValueError string
  | AttributeError string
  | KeyError "string option"
  | StopIteration
  | IOError string
  | DatabaseError "string option"

text \<open>
  Character classes of Python's \<^verbatim>\<open>re\<close> module and of \<^verbatim>\<open>str.strip\<close>, for ASCII text:
  \<^verbatim>\<open>\s\<close> is the characters 9 to 13 and 28 to 32, \<^verbatim>\<open>\w\<close> is letters, digits and the
  underscore. Characters outside ASCII are taken to be in neither class.
\<close>

definition is_space :: "char \<Rightarrow> bool" where
  "is_space c = (let n = (of_char c :: nat) in (9 \<le> n \<and> n \<le> 13) \<or> (28 \<le> n \<and> n \<le> 32))"

definition is_word :: "char \<Rightarrow> bool" where
  "is_word c = (let n = (of_char c :: nat) in
     (48 \<le> n \<and> n \<le> 57) \<or> (65 \<le> n \<and> n \<le> 90) \<or> (97 \<le> n \<and> n \<le> 122) \<or> n = 95)"

definition upper_char :: "char \<Rightarrow> char" where
  "upper_char c = (let n = (of_char c :: nat) in
     if 97 \<le> n \<and> n \<le> 122 then char_of (n - 32) else c)"

definition newline :: char where
  "newline = CHR 0x0A"

definition rstrip :: "string \<Rightarrow> string" where
  "rstrip s = rev (dropWhile is_space (rev s))"

definition strip :: "string \<Rightarrow> string" where
  "strip s = rstrip (dropWhile is_space s)"

text \<open>\<^verbatim>\<open>sep.join(xs)\<close>.\<close>

fun join :: "string \<Rightarrow> string list \<Rightarrow> string" where
  "join sep [] = []"
| "join sep [x] = x"
| "join sep (x # y # ys) = x @ sep @ join sep (y # ys)"

text \<open>\<^verbatim>\<open>str(n)\<close> for a non-negative integer, as the f-string \<^verbatim>\<open>f'Step {n}'\<close> formats it.\<close>

definition digit_char :: "nat \<Rightarrow> char" where
  "digit_char d = char_of (48 + d)"

fun str_nat :: "nat \<Rightarrow> string" where
  "str_nat n = (if n < 10 then [digit_char n] else str_nat (n div 10) @ [digit_char (n mod 10)])"

declare str_nat.simps [simp del]

text \<open>
  Iterating over a text file yields its lines, each with its line end kept; the last line
  has none when the text does not end in a newline.
\<close>

definition readlines :: "string \<Rightarrow> string list" where
  "readlines text = foldr (\<lambda>c ls.
      if c = newline then [c] # ls
      else (case ls of [] \<Rightarrow> [[c]] | l # ls' \<Rightarrow> (c # l) # ls')) text []"

text \<open>
  \<^verbatim>\<open>more_itertools.peekable\<close> over the lines: \<^verbatim>\<open>lines.peek(None)\<close> and \<^verbatim>\<open>next(lines)\<close>.
  The second raises \<^verbatim>\<open>StopIteration\<close> on an exhausted iterator.
\<close>

definition peek :: "string list \<Rightarrow> string option" where
  "peek lines = (case lines of [] \<Rightarrow> None | l # _ \<Rightarrow> Some l)"

definition next_line :: "string list \<Rightarrow> exc + (string \<times> string list)" where
  "next_line lines = (case lines of [] \<Rightarrow> Inl StopIteration | l # rest \<Rightarrow> Inr (l, rest))"


section \<open>The script parser\<close>

text \<open>
  \<^verbatim>\<open>_sep_re = re.compile(r'^---\s*(?P<inst>.*)')\<close>, applied with \<^verbatim>\<open>match\<close>: the line has
  to start with three dashes; \<^verbatim>\<open>\s*\<close> takes all the white space that follows, and
  \<^verbatim>\<open>inst\<close> is the rest up to the next newline, which \<^verbatim>\<open>.\<close> does not match.
\<close>

definition sep_match :: "string \<Rightarrow> string option" where
  "sep_match line =
     (if take 3 line = ''---''
      then Some (takeWhile (\<lambda>c. c \<noteq> newline) (dropWhile is_space (drop 3 line)))
      else None)"

text \<open>
  \<^verbatim>\<open>_icode_re = re.compile(r'#(?P<code>\w+)\s*(?P<args>.*\S)?\s*$')\<close>, applied with
  \<^verbatim>\<open>match\<close> to an instruction text without newline (as \<open>sep_match\<close> returns it). The
  greedy \<^verbatim>\<open>\w+\<close> takes the longest run of word characters after the hash; the group
  \<^verbatim>\<open>args\<close> is what follows the white space, up to its last character that is not white
  space, and takes no part in the match (\<^verbatim>\<open>None\<close>) when nothing follows.
\<close>

definition icode_match :: "string \<Rightarrow> (string \<times> string option) option" where
  "icode_match inst =
     (case inst of
        [] \<Rightarrow> None
      | c # rest \<Rightarrow>
          if c \<noteq> CHR ''#'' then None
          else let code = takeWhile is_word rest;
                   r = dropWhile is_space (dropWhile is_word rest)
               in if code = [] then None
                  else Some (code, if r = [] then None else Some (rstrip r)))"

text \<open>
  \<^verbatim>\<open>psycopg2.errorcodes\<close>: the driver's table of symbolic names and SQLSTATE codes, a
  parameter of the model. \<^verbatim>\<open>getattr(psycopg2.errorcodes, name)\<close> resolves a name to its
  code and raises \<^verbatim>\<open>AttributeError\<close> for a name the module does not have;
  \<^verbatim>\<open>psycopg2.errorcodes.lookup(code)\<close> goes from a code back to a name and raises
  \<^verbatim>\<open>KeyError\<close> for a code the module does not have.
\<close>

type_synonym errorcodes = "(string \<times> string) list"

definition getattr_errorcodes :: "errorcodes \<Rightarrow> string \<Rightarrow> exc + string" where
  "getattr_errorcodes T name =
     (case map_of T name of None \<Rightarrow> Inl (AttributeError name) | Some code \<Rightarrow> Inr code)"

definition lookup :: "errorcodes \<Rightarrow> string option \<Rightarrow> exc + string" where
  "lookup T pgcode =
     (case pgcode of
        None \<Rightarrow> Inl (KeyError None)
      | Some code \<Rightarrow>
          (case find (\<lambda>(name, c). c = code) T of
             None \<Rightarrow> Inl (KeyError (Some code))
           | Some (name, c) \<Rightarrow> Inr name))"

text \<open>
  \<^verbatim>\<open>args.upper()\<close> where \<^verbatim>\<open>args\<close> is the optional group of the match: on \<^verbatim>\<open>None\<close> the
  attribute access fails.
\<close>

definition upper :: "string option \<Rightarrow> exc + string" where
  "upper args =
     (case args of
        None \<Rightarrow> Inl (AttributeError ''upper'')
      | Some a \<Rightarrow> Inr (map upper_char a))"

text \<open>
  \<^verbatim>\<open>ScriptChunk\<close>, the named tuple, with the field types that the class declares. While
  \<^verbatim>\<open>_read_header\<close> runs, label, tolerated codes and transaction flag are three local
  variables (\<^verbatim>\<open>label\<close>, \<^verbatim>\<open>errs\<close>, \<^verbatim>\<open>tx\<close>); they are returned in a chunk whose source is
  still \<^verbatim>\<open>None\<close> and whose label may be. That partial chunk is the datatype \<open>header\<close>.
\<close>

record ScriptChunk =
  label :: string
  allowed_errors :: "string list"
  src :: string
  use_transaction :: bool

datatype header = Header (h_label: "string option") (h_errs: "string list") (h_tx: bool)

text \<open>
  The loop of \<^verbatim>\<open>_read_header\<close>: it stops, without taking the line, at the end of the input
  and at the first line that is no directive; a directive line is taken, and ignored
  (\<^verbatim>\<open>continue\<close>) when its instruction text does not match \<^verbatim>\<open>_icode_re\<close>.
\<close>

function read_header_loop :: "errorcodes \<Rightarrow> header \<Rightarrow> string list \<Rightarrow> exc + (header \<times> string list)" where
  "read_header_loop T h lines =
     (case peek lines of
        None \<Rightarrow> Inr (h, lines)
      | Some line \<Rightarrow>
          (case sep_match line of
             None \<Rightarrow> Inr (h, lines)
           | Some inst \<Rightarrow>
               (case next_line lines of
                  Inl e \<Rightarrow> Inl e
                | Inr (eaten, rest) \<Rightarrow>
                    (case icode_match inst of
                       None \<Rightarrow> read_header_loop T h rest
                     | Some (code, args) \<Rightarrow>
                         if code = ''step'' then
                           read_header_loop T (Header args (h_errs h) (h_tx h)) rest
                         else if code = ''allow'' then
                           (case upper args of
                              Inl e \<Rightarrow> Inl e
                            | Inr name \<Rightarrow>
                                (case getattr_errorcodes T name of
                                   Inl e \<Rightarrow> Inl e
                                 | Inr err \<Rightarrow>
                                     read_header_loop T
                                       (Header (h_label h) (h_errs h @ [err]) (h_tx h)) rest))
                         else if code = ''notx'' then
                           read_header_loop T (Header (h_label h) (h_errs h) False) rest
                         else Inl (ValueError (''invalid query instruction '' @ code))))))"
  by pat_completeness auto
termination
  by (relation "measure (\<lambda>(T, h, lines). length lines)")
     (auto simp: next_line_def split: list.splits)

declare read_header_loop.simps [simp del]

definition read_header :: "errorcodes \<Rightarrow> string list \<Rightarrow> exc + (header \<times> string list)" where
  "read_header T lines = read_header_loop T (Header None [] True) lines"

text \<open>The first loop of \<^verbatim>\<open>_read_query\<close>: lines are taken up to the next directive line.\<close>

function read_query_loop :: "string list \<Rightarrow> string list \<Rightarrow> exc + (string list \<times> string list)" where
  "read_query_loop qls lines =
     (case peek lines of
        None \<Rightarrow> Inr (qls, lines)
      | Some line \<Rightarrow>
          if sep_match line \<noteq> None then Inr (qls, lines)
          else (case next_line lines of
                  Inl e \<Rightarrow> Inl e
                | Inr (l, rest) \<Rightarrow> read_query_loop (qls @ [l]) rest))"
  by pat_completeness auto
termination
  by (relation "measure (\<lambda>(qls, lines). length lines)")
     (auto simp: next_line_def split: list.splits)

declare read_query_loop.simps [simp del]

text \<open>
  The two trimming loops pop blank lines from the front and from the back; a line is
  blank when \<^verbatim>\<open>line.strip()\<close> is empty.
\<close>

definition blank :: "string \<Rightarrow> bool" where
  "blank l = (strip l = [])"

definition trim_lines :: "string list \<Rightarrow> string list" where
  "trim_lines qls = rev (dropWhile blank (rev (dropWhile blank qls)))"

text \<open>
  \<^verbatim>\<open>_read_query\<close> returns the trimmed lines, or \<^verbatim>\<open>None\<close> at the end of the file: when no
  line is left and none was collected.
\<close>

definition read_query :: "string list \<Rightarrow> exc + (string list option \<times> string list)" where
  "read_query lines =
     (case read_query_loop [] lines of
        Inl e \<Rightarrow> Inl e
      | Inr (qls, rest) \<Rightarrow>
          let qls' = trim_lines qls
          in if qls' \<noteq> [] \<or> peek rest \<noteq> None then Inr (Some qls', rest)
             else Inr (None, rest))"

text \<open>
  \<^verbatim>\<open>_parse_chunk\<close> returns a chunk, \<^verbatim>\<open>False\<close> for an empty chunk, or \<^verbatim>\<open>None\<close> at the end
  of the file.
\<close>

datatype chunk_result = Chunk ScriptChunk | PyFalse | PyNone

definition parse_chunk :: "errorcodes \<Rightarrow> string list \<Rightarrow> nat \<Rightarrow> exc + (chunk_result \<times> string list)" where
  "parse_chunk T lines n =
     (case read_header T lines of
        Inl e \<Rightarrow> Inl e
      | Inr (chunk, rest) \<Rightarrow>
          (case read_query rest of
             Inl e \<Rightarrow> Inl e
           | Inr (qlines, rest') \<Rightarrow>
               (case qlines of
                  Some qls \<Rightarrow>
                    if qls \<noteq> [] then
                      Inr (Chunk \<lparr> label = (case h_label chunk of
                                              None \<Rightarrow> ''Step '' @ str_nat n
                                            | Some l \<Rightarrow> l),
                                   allowed_errors = h_errs chunk,
                                   src = join [newline] qls,
                                   use_transaction = h_tx chunk \<rparr>, rest')
                    else Inr (PyFalse, rest')
                | None \<Rightarrow> Inr (PyNone, rest'))))"


text \<open>What the two loops consume, needed to see that the loop of \<^verbatim>\<open>_parse\<close> ends.\<close>

lemma read_query_loop_eq:
  "read_query_loop qls lines =
     Inr (qls @ takeWhile (\<lambda>l. sep_match l = None) lines,
          dropWhile (\<lambda>l. sep_match l = None) lines)"
proof (induction lines arbitrary: qls)
  case Nil
  show ?case by (simp add: read_query_loop.simps [of qls "[]"] peek_def)
next
  case (Cons l ls)
  show ?case
    by (simp add: read_query_loop.simps [of qls "l # ls"] peek_def next_line_def Cons.IH)
qed

text \<open>
  One round of the header loop, for the proofs: what a directive line with instruction
  text \<open>inst\<close> does to the three variables.
\<close>

definition directive :: "errorcodes \<Rightarrow> header \<Rightarrow> string \<Rightarrow> exc + header" where
  "directive T h inst =
     (case icode_match inst of
        None \<Rightarrow> Inr h
      | Some (code, args) \<Rightarrow>
          if code = ''step'' then Inr (Header args (h_errs h) (h_tx h))
          else if code = ''allow'' then
            (case upper args of
               Inl e \<Rightarrow> Inl e
             | Inr name \<Rightarrow>
                 (case getattr_errorcodes T name of
                    Inl e \<Rightarrow> Inl e
                  | Inr err \<Rightarrow> Inr (Header (h_label h) (h_errs h @ [err]) (h_tx h))))
          else if code = ''notx'' then Inr (Header (h_label h) (h_errs h) False)
          else Inl (ValueError (''invalid query instruction '' @ code)))"

lemma read_header_loop_Nil: "read_header_loop T h [] = Inr (h, [])"
  by (simp add: read_header_loop.simps [of T h "[]"] peek_def)

lemma read_header_loop_Cons:
  "read_header_loop T h (l # ls) =
     (case sep_match l of
        None \<Rightarrow> Inr (h, l # ls)
      | Some inst \<Rightarrow>
          (case directive T h inst of
             Inl e \<Rightarrow> Inl e
           | Inr h' \<Rightarrow> read_header_loop T h' ls))"
  by (simp add: read_header_loop.simps [of T h "l # ls"] peek_def next_line_def directive_def
           split: option.splits sum.splits)

lemma read_header_loop_rest:
  "read_header_loop T h lines = Inr (h', rest) \<Longrightarrow>
     length rest \<le> length lines \<and> (\<forall>l. peek rest = Some l \<longrightarrow> sep_match l = None)"
proof (induction lines arbitrary: h)
  case Nil
  then show ?case by (simp add: read_header_loop_Nil peek_def)
next
  case (Cons l ls)
  show ?case
  proof (cases "sep_match l")
    case None
    with Cons.prems show ?thesis by (auto simp: read_header_loop_Cons peek_def)
  next
    case (Some inst)
    with Cons.prems obtain h1 where "read_header_loop T h1 ls = Inr (h', rest)"
      by (auto simp: read_header_loop_Cons split: sum.splits)
    from Cons.IH [OF this] show ?thesis by simp
  qed
qed

lemma parse_chunk_progress:
  assumes "parse_chunk T lines n = Inr (r, rest)" and "r \<noteq> PyNone"
  shows "length rest < length lines"
proof -
  let ?ns = "\<lambda>l. sep_match l = None"
  from assms(1) obtain h r1 where
    hd: "read_header T lines = Inr (h, r1)"
    by (auto simp: parse_chunk_def split: sum.splits)
  from hd have len1: "length r1 \<le> length lines"
    and nosep: "\<forall>l. peek r1 = Some l \<longrightarrow> sep_match l = None"
    using read_header_loop_rest [of T "Header None [] True" lines h r1]
    by (simp_all add: read_header_def)
  have rq: "read_query_loop [] r1 = Inr (takeWhile ?ns r1, dropWhile ?ns r1)"
    using read_query_loop_eq [of "[]" r1] by simp
  from assms hd rq have rest: "rest = dropWhile ?ns r1"
    and ne: "trim_lines (takeWhile ?ns r1) \<noteq> [] \<or> peek rest \<noteq> None"
    by (auto simp: parse_chunk_def read_query_def Let_def split: if_splits option.splits)
  have "takeWhile ?ns r1 \<noteq> []"
  proof
    assume emp: "takeWhile ?ns r1 = []"
    with ne have "peek rest \<noteq> None" by (simp add: trim_lines_def)
    with rest emp nosep show False
      by (cases r1) (auto simp: peek_def split: if_splits)
  qed
  then have "length (dropWhile ?ns r1) < length r1"
    by (metis length_greater_0_conv length_append less_add_same_cancel2
        takeWhile_dropWhile_id)
  with rest len1 show ?thesis by simp
qed

text \<open>
  \<^verbatim>\<open>_parse\<close>: chunks are read until \<^verbatim>\<open>_parse_chunk\<close> returns \<^verbatim>\<open>None\<close>; a result that is
  not true (\<^verbatim>\<open>False\<close>) is not appended. The chunk number handed down is the number of
  chunks kept so far plus one.
\<close>

function parse_loop :: "errorcodes \<Rightarrow> ScriptChunk list \<Rightarrow> string list \<Rightarrow> exc + ScriptChunk list" where
  "parse_loop T chunks lines =
     (case parse_chunk T lines (length chunks + 1) of
        Inl e \<Rightarrow> Inl e
      | Inr (next_chunk, rest) \<Rightarrow>
          (case next_chunk of
             PyNone \<Rightarrow> Inr chunks
           | PyFalse \<Rightarrow> parse_loop T chunks rest
           | Chunk c \<Rightarrow> parse_loop T (chunks @ [c]) rest))"
  by pat_completeness auto
termination
  by (relation "measure (\<lambda>(T, chunks, lines). length lines)")
     (auto dest: parse_chunk_progress)

declare parse_loop.simps [simp del]

text \<open>
  \<^verbatim>\<open>SqlScript(file)\<close> for a readable file: the constructor parses its lines. The result
  is the value of \<^verbatim>\<open>self.chunks\<close>.
\<close>

definition parse :: "errorcodes \<Rightarrow> string \<Rightarrow> exc + ScriptChunk list" where
  "parse T text = parse_loop T [] (readlines text)"


section \<open>The statement classifier\<close>

text \<open>
  A statement as \<^verbatim>\<open>sqlparse\<close> hands it over: its top-level tokens, the answer of
  \<^verbatim>\<open>get_type()\<close> and the answer of \<^verbatim>\<open>get_real_name()\<close>. Of a token the classifier reads
  the token type (\<^verbatim>\<open>None\<close> for a group of tokens), the class (for \<^verbatim>\<open>isinstance\<close>) and the
  attribute \<^verbatim>\<open>normalized\<close>; \<open>tvalue\<close> is the token's text. The token types are compared
  with \<^verbatim>\<open>==\<close>, so \<^verbatim>\<open>Keyword.DDL\<close> and \<^verbatim>\<open>Keyword.DML\<close> are not \<^verbatim>\<open>Keyword\<close>.
\<close>

datatype ttype = T_Keyword | T_DDL | T_DML | T_CTE | T_Whitespace | T_Newline | T_Comment
  | T_Name | T_Punctuation | T_Wildcard | T_Number | T_Other

datatype tclass = sql_Token | sql_Identifier | sql_Function | sql_Comment | sql_Parenthesis
  | sql_Values | sql_Other

record token =
  cls :: tclass
  ttype :: "ttype option"
  tvalue :: string
  normalized :: string

record statement =
  get_type :: string
  tokens :: "token list"
  get_real_name :: "string option"

definition is_whitespace :: "token \<Rightarrow> bool" where
  "is_whitespace t = (ttype t = Some T_Whitespace \<or> ttype t = Some T_Newline)"

definition is_comment :: "token \<Rightarrow> bool" where
  "is_comment t = (ttype t = Some T_Comment \<or> cls t = sql_Comment)"

text \<open>\<^verbatim>\<open>str(sql)\<close>: the text of the statement.\<close>

definition str_statement :: "statement \<Rightarrow> string" where
  "str_statement s = concat (map tvalue (tokens s))"

text \<open>
  \<^verbatim>\<open>s.token_next(idx, skip_ws, skip_cm)\<close>: the first token after position \<^verbatim>\<open>idx\<close> that is
  not skipped, with its position.
\<close>

definition token_next :: "statement \<Rightarrow> int \<Rightarrow> bool \<Rightarrow> bool \<Rightarrow> (nat \<times> token) option" where
  "token_next s idx skip_ws skip_cm =
     find (\<lambda>(i, t). \<not> ((skip_ws \<and> is_whitespace t) \<or> (skip_cm \<and> is_comment t)))
          (drop (nat (idx + 1)) (enumerate 0 (tokens s)))"

text \<open>
  \<^verbatim>\<open>_tokens(s, start)\<close> with its defaults \<^verbatim>\<open>skip_ws=True, skip_cm=True\<close>: the generator
  yields, in order, every token after position \<^verbatim>\<open>start\<close> that is neither white space nor
  comment.
\<close>

definition tokens_after :: "statement \<Rightarrow> int \<Rightarrow> token list" where
  "tokens_after s start =
     filter (\<lambda>t. \<not> (is_whitespace t \<or> is_comment t)) (drop (nat (start + 1)) (tokens s))"

text \<open>
  The loop of the DDL branch, with its variables \<^verbatim>\<open>first\<close>, \<^verbatim>\<open>skipping\<close> and \<^verbatim>\<open>parts\<close>.
\<close>

fun ddl_parts :: "bool \<Rightarrow> bool \<Rightarrow> string list \<Rightarrow> token list \<Rightarrow> string list" where
  "ddl_parts first skipping parts [] = parts"
| "ddl_parts first skipping parts (t # ts) =
     (if \<not> first \<and> (cls t = sql_Identifier \<or> cls t = sql_Function) then parts @ [normalized t]
      else if \<not> first \<and> ttype t \<noteq> Some T_Keyword then parts
      else let skipping' = (skipping \<or> normalized t = ''IF'')
           in ddl_parts False skipping'
                (if \<not> skipping' then parts @ [normalized t] else parts) ts)"

text \<open>The loop of the \<^verbatim>\<open>UNKNOWN\<close> branch: the leading run of keywords.\<close>

definition leading_keywords :: "token list \<Rightarrow> string list" where
  "leading_keywords ts = map normalized (takeWhile (\<lambda>t. ttype t = Some T_Keyword) ts)"

definition describe_statement :: "statement \<Rightarrow> string option" where
  "describe_statement s =
     (let label = get_type s in
      case token_next s (-1) True True of
        None \<Rightarrow> None
      | Some (li, lt) \<Rightarrow>
          if ttype lt = Some T_DDL then
            Some (label @ '' '' @ join '' '' (ddl_parts True False [] (tokens_after s (int li))))
          else if label = ''UNKNOWN'' then
            (let ls = leading_keywords (tokens_after s (-1));
                 label' = (if ls \<noteq> [] then join '' '' ls else label)
             in case get_real_name s of
                  None \<Rightarrow> Some label'
                | Some name \<Rightarrow> if name \<noteq> [] then Some (label' @ '' '' @ name) else Some label')
          else Some label)"

definition is_empty :: "statement \<Rightarrow> bool" where
  "is_empty s = (token_next s (-1) True True = None)"

text \<open>
  \<^verbatim>\<open>ScriptChunk.statements\<close>. \<^verbatim>\<open>sqlparse.parse\<close>, which splits the source of a chunk into
  statements, is a parameter of the model.
\<close>

definition statements :: "(string \<Rightarrow> statement list) \<Rightarrow> ScriptChunk \<Rightarrow> statement list" where
  "statements sqlparse step = filter (\<lambda>s. \<not> is_empty s) (sqlparse (src step))"

text \<open>
  Tokens as the lexer of \<^verbatim>\<open>sqlparse\<close> builds them: for a token with a keyword type,
  \<^verbatim>\<open>normalized\<close> is the text in upper case, for every other token and for a group it is
  the text.
\<close>

definition is_keyword :: "ttype \<Rightarrow> bool" where
  "is_keyword ty = (ty = T_Keyword \<or> ty = T_DDL \<or> ty = T_DML \<or> ty = T_CTE)"

definition leaf :: "ttype \<Rightarrow> string \<Rightarrow> token" where
  "leaf ty v = \<lparr>cls = sql_Token, ttype = Some ty, tvalue = v,
               normalized = (if is_keyword ty then map upper_char v else v)\<rparr>"

definition group :: "tclass \<Rightarrow> string \<Rightarrow> token" where
  "group k v = \<lparr>cls = k, ttype = None, tvalue = v, normalized = v\<rparr>"

definition ws :: token where
  "ws = leaf T_Whitespace '' ''"

text \<open>
  The three statements of the specification's examples, as \<^verbatim>\<open>sqlparse.parse\<close> returns
  them. \<^verbatim>\<open>CREATE\<close> is a DDL keyword, \<^verbatim>\<open>SELECT\<close> and \<^verbatim>\<open>INSERT\<close> are DML keywords, and
  \<^verbatim>\<open>get_type()\<close> is the normalized first token when that is a DDL or DML keyword.
\<close>

definition create_table_foo :: statement where
  "create_table_foo =
     \<lparr>get_type = ''CREATE'',
      tokens = [leaf T_DDL ''CREATE'', ws, leaf T_Keyword ''TABLE'', ws, leaf T_Keyword ''IF'', ws,
                leaf T_Keyword ''NOT'', ws, leaf T_Keyword ''EXISTS'', ws,
                group sql_Identifier ''foo'', ws, group sql_Parenthesis ''(...)''],
      get_real_name = Some ''foo''\<rparr>"

definition select_from_t :: statement where
  "select_from_t =
     \<lparr>get_type = ''SELECT'',
      tokens = [leaf T_DML ''SELECT'', ws, leaf T_Wildcard ''*'', ws, leaf T_Keyword ''FROM'', ws,
                group sql_Identifier ''t''],
      get_real_name = Some ''t''\<rparr>"

definition insert_into_bar :: statement where
  "insert_into_bar =
     \<lparr>get_type = ''INSERT'',
      tokens = [leaf T_DML ''INSERT'', ws, leaf T_Keyword ''INTO'', ws,
                group sql_Identifier ''bar'', ws, group sql_Values ''VALUES (...)''],
      get_real_name = Some ''bar''\<rparr>"


section \<open>The database connection\<close>

text \<open>
  A \<^verbatim>\<open>psycopg2\<close> connection to a PostgreSQL server whose database has type \<open>'db\<close>:
  the committed database, the state of the transaction block (none open, open with the
  database as the transaction sees it, or aborted by a failed statement), and the
  \<^verbatim>\<open>autocommit\<close> attribute. \<open>executed\<close> records every statement text handed to
  \<^verbatim>\<open>cursor.execute\<close>, in order; the program does not read it.
\<close>

datatype 'db txn = Idle | Open 'db | Aborted

record 'db connection =
  committed :: 'db
  txn :: "'db txn"
  autocommit :: bool
  executed :: "string list"

text \<open>
  \<^verbatim>\<open>cur.execute(sql)\<close>, where \<open>act\<close> is what the server does for the statement: a new
  database, or an error with its SQLSTATE. With \<^verbatim>\<open>autocommit\<close> the statement is its own
  transaction. Otherwise it runs in the transaction block, opening one if need be; an
  error aborts the block, and in an aborted block the server refuses every statement
  with SQLSTATE 25P02.
\<close>

definition cur_execute ::
  "string \<Rightarrow> ('db \<Rightarrow> string option + 'db) \<Rightarrow> 'db connection \<Rightarrow> (exc + unit) \<times> 'db connection" where
  "cur_execute sql act c =
     (let c1 = c\<lparr>executed := executed c @ [sql]\<rparr> in
      if autocommit c then
        (case act (committed c) of
           Inl code \<Rightarrow> (Inl (DatabaseError code), c1)
         | Inr db \<Rightarrow> (Inr (), c1\<lparr>committed := db\<rparr>))
      else
        (case txn c of
           Aborted \<Rightarrow> (Inl (DatabaseError (Some ''25P02'')), c1)
         | Idle \<Rightarrow>
             (case act (committed c) of
                Inl code \<Rightarrow> (Inl (DatabaseError code), c1\<lparr>txn := Aborted\<rparr>)
              | Inr db \<Rightarrow> (Inr (), c1\<lparr>txn := Open db\<rparr>))
         | Open d \<Rightarrow>
             (case act d of
                Inl code \<Rightarrow> (Inl (DatabaseError code), c1\<lparr>txn := Aborted\<rparr>)
              | Inr db \<Rightarrow> (Inr (), c1\<lparr>txn := Open db\<rparr>))))"

text \<open>
  \<^verbatim>\<open>dbc.commit()\<close> and \<^verbatim>\<open>dbc.rollback()\<close>. Committing an aborted block rolls it back.
\<close>

definition commit :: "'db connection \<Rightarrow> 'db connection" where
  "commit c = (case txn c of Open d \<Rightarrow> c\<lparr>committed := d, txn := Idle\<rparr> | _ \<Rightarrow> c\<lparr>txn := Idle\<rparr>)"

definition rollback :: "'db connection \<Rightarrow> 'db connection" where
  "rollback c = c\<lparr>txn := Idle\<rparr>"

text \<open>
  \<^verbatim>\<open>with dbc, dbc.cursor() as cur: body\<close>: when the block is left, the cursor is closed
  and the connection commits if the body returned and rolls back if it raised; the
  exception goes on to the caller.
\<close>

definition with_connection ::
  "('db connection \<Rightarrow> (exc + 'a) \<times> 'db connection) \<Rightarrow> 'db connection \<Rightarrow> (exc + 'a) \<times> 'db connection" where
  "with_connection body c =
     (case body c of
        (Inr x, c') \<Rightarrow> (Inr x, commit c')
      | (Inl e, c') \<Rightarrow> (Inl e, rollback c'))"

text \<open>
  \<^verbatim>\<open>dbc.autocommit = v\<close>: the driver refuses to change the attribute inside a transaction
  block, with a \<^verbatim>\<open>ProgrammingError\<close> that carries no SQLSTATE.
\<close>

definition set_autocommit :: "bool \<Rightarrow> 'db connection \<Rightarrow> (exc + unit) \<times> 'db connection" where
  "set_autocommit v c =
     (if txn c \<noteq> Idle then (Inl (DatabaseError None), c) else (Inr (), c\<lparr>autocommit := v\<rparr>))"

text \<open>The database that the next statement on the connection will see.\<close>

definition current_db :: "'db connection \<Rightarrow> 'db" where
  "current_db c = (if autocommit c then committed c
                   else case txn c of Open d \<Rightarrow> d | _ \<Rightarrow> committed c)"


section \<open>The script executor\<close>

text \<open>
  The \<^verbatim>\<open>for\<close> loop of \<^verbatim>\<open>_run_step\<close> over the statements of the chunk: each statement's
  text goes to \<^verbatim>\<open>cur.execute\<close>; the first exception ends the loop. \<open>db_exec\<close>, what the
  server does for a statement text, is a parameter. Timing, the log and the transcript
  are left out: they change neither the database nor the flow of control, but for the
  call of \<^verbatim>\<open>psycopg2.errorcodes.lookup\<close> in the exception handler, which is modelled.
\<close>

fun run_statements ::
  "(string \<Rightarrow> 'db \<Rightarrow> string option + 'db) \<Rightarrow> statement list \<Rightarrow> 'db connection
     \<Rightarrow> (exc + unit) \<times> 'db connection" where
  "run_statements db_exec [] c = (Inr (), c)"
| "run_statements db_exec (sql # sqls) c =
     (case cur_execute (str_statement sql) (db_exec (str_statement sql)) c of
        (Inl e, c') \<Rightarrow> (Inl e, c')
      | (Inr u, c') \<Rightarrow> run_statements db_exec sqls c')"

text \<open>\<^verbatim>\<open>e.pgcode in step.allowed_errors\<close>.\<close>

definition pgcode_in :: "string option \<Rightarrow> string list \<Rightarrow> bool" where
  "pgcode_in pgcode allowed = (case pgcode of None \<Rightarrow> False | Some code \<Rightarrow> code \<in> set allowed)"

text \<open>
  \<^verbatim>\<open>_run_step\<close>. The handler catches \<^verbatim>\<open>psycopg2.Error\<close> only. In both of its branches the
  arguments of the log call are evaluated first, the call of \<^verbatim>\<open>lookup\<close> among them; in
  the second branch \<^verbatim>\<open>raise e\<close> follows the log call.
\<close>

definition run_step ::
  "errorcodes \<Rightarrow> (string \<Rightarrow> 'db \<Rightarrow> string option + 'db) \<Rightarrow> (string \<Rightarrow> statement list)
     \<Rightarrow> ScriptChunk \<Rightarrow> 'db connection \<Rightarrow> bool \<Rightarrow> (exc + unit) \<times> 'db connection" where
  "run_step T db_exec sqlparse step c do_commit =
     (case run_statements db_exec (statements sqlparse step) c of
        (Inr u, c') \<Rightarrow> (Inr (), if do_commit then commit c' else c')
      | (Inl e, c') \<Rightarrow>
          (case e of
             DatabaseError pgcode \<Rightarrow>
               if pgcode_in pgcode (allowed_errors step) then
                 (case lookup T pgcode of
                    Inl k \<Rightarrow> (Inl k, c')
                  | Inr name \<Rightarrow> (Inr (), c'))
               else
                 (case lookup T pgcode of
                    Inl k \<Rightarrow> (Inl k, c')
                  | Inr name \<Rightarrow> (Inl e, c'))
           | _ \<Rightarrow> (Inl e, c')))"

text \<open>
  The body of the loop of \<^verbatim>\<open>execute\<close> for one chunk. Without a transaction the chunk
  runs between \<^verbatim>\<open>dbc.autocommit = True\<close> and, in the \<^verbatim>\<open>finally\<close> clause, the assignment
  that restores the former value; an exception of the \<^verbatim>\<open>finally\<close> clause replaces the
  one under way.
\<close>

definition execute_chunk ::
  "errorcodes \<Rightarrow> (string \<Rightarrow> 'db \<Rightarrow> string option + 'db) \<Rightarrow> (string \<Rightarrow> statement list)
     \<Rightarrow> ScriptChunk \<Rightarrow> 'db connection \<Rightarrow> (exc + unit) \<times> 'db connection" where
  "execute_chunk T db_exec sqlparse step dbc =
     (if use_transaction step then
        with_connection (\<lambda>c. run_step T db_exec sqlparse step c True) dbc
      else
        (let ac = autocommit dbc;
             (r, c2) = (case set_autocommit True dbc of
                          (Inl e, c1) \<Rightarrow> (Inl e, c1)
                        | (Inr u, c1) \<Rightarrow> run_step T db_exec sqlparse step c1 False)
         in case set_autocommit ac c2 of
              (Inl e2, c3) \<Rightarrow> (Inl e2, c3)
            | (Inr u, c3) \<Rightarrow> (r, c3)))"

text \<open>\<^verbatim>\<open>execute\<close>: the chunks in order; an exception ends the run.\<close>

fun execute ::
  "errorcodes \<Rightarrow> (string \<Rightarrow> 'db \<Rightarrow> string option + 'db) \<Rightarrow> (string \<Rightarrow> statement list)
     \<Rightarrow> ScriptChunk list \<Rightarrow> 'db connection \<Rightarrow> (exc + unit) \<times> 'db connection" where
  "execute T db_exec sqlparse [] dbc = (Inr (), dbc)"
| "execute T db_exec sqlparse (step # steps) dbc =
     (case execute_chunk T db_exec sqlparse step dbc of
        (Inl e, dbc') \<Rightarrow> (Inl e, dbc')
      | (Inr u, dbc') \<Rightarrow> execute T db_exec sqlparse steps dbc')"

text \<open>
  \<^verbatim>\<open>describe\<close> takes the script only. Its two loops write to the log, one record for each
  chunk and one for each statement of the chunk; the function has no \<^verbatim>\<open>return\<close> and no
  \<^verbatim>\<open>yield\<close>, so its value is \<^verbatim>\<open>None\<close>.
\<close>

datatype log_record = Log_Chunk string | Log_Statement "string option"

fun describe_loop :: "(string \<Rightarrow> statement list) \<Rightarrow> ScriptChunk list \<Rightarrow> log_record list \<Rightarrow> log_record list" where
  "describe_loop sqlparse [] log = log"
| "describe_loop sqlparse (step # steps) log =
     describe_loop sqlparse steps
       (fold (\<lambda>s l. l @ [Log_Statement (describe_statement s)]) (statements sqlparse step)
          (log @ [Log_Chunk (label step)]))"

definition describe ::
  "(string \<Rightarrow> statement list) \<Rightarrow> ScriptChunk list \<Rightarrow> log_record list
     \<Rightarrow> (string \<times> string option) list option \<times> log_record list" where
  "describe sqlparse chunks log = (None, describe_loop sqlparse chunks log)"

text \<open>
  The sequence that the specification describes for \<^verbatim>\<open>describe\<close>: a pair of chunk label
  and statement label for each statement of each chunk, in order.
\<close>

definition spec_describe_pairs ::
  "(string \<Rightarrow> statement list) \<Rightarrow> ScriptChunk list \<Rightarrow> (string \<times> string option) list" where
  "spec_describe_pairs sqlparse chunks =
     concat (map (\<lambda>step. map (\<lambda>s. (label step, describe_statement s)) (statements sqlparse step))
                 chunks)"

text \<open>A script of one chunk with one statement, and its \<^verbatim>\<open>sqlparse.parse\<close>.\<close>

definition one_select :: "string \<Rightarrow> statement list" where
  "one_select text = (if text = ''SELECT * FROM t'' then [select_from_t] else [])"

definition select_chunk :: ScriptChunk where
  "select_chunk = \<lparr>label = ''Step 1'', allowed_errors = [], src = ''SELECT * FROM t'',
                   use_transaction = True\<rparr>"


section \<open>The stage and file ledger\<close>

text \<open>
  The three tables of \<^verbatim>\<open>meta_schema\<close>, each a list of rows. Time stamps are numbers.
\<close>

record stage_status_row =
  stage_name :: string
  started_at :: nat
  finished_at :: "nat option"
  stage_key :: "string option"

record source_file_row =
  filename :: string
  reg_time :: nat
  checksum :: string

record ledger =
  stage_status :: "stage_status_row list"
  source_file :: "source_file_row list"
  stage_file :: "(string \<times> string) list"

text \<open>
  What the server does for the five statements of the ledger functions. \<open>now\<close> is the
  value of \<^verbatim>\<open>now()\<close> and of the column default \<^verbatim>\<open>CURRENT_TIMESTAMP\<close>.

  \<^verbatim>\<open>INSERT INTO stage_status (stage_name) VALUES (%s) ON CONFLICT (stage_name)
  DO UPDATE SET started_at = now(), finished_at = NULL, stage_key = NULL\<close>
\<close>

definition insert_stage_status :: "nat \<Rightarrow> string \<Rightarrow> ledger \<Rightarrow> string option + ledger" where
  "insert_stage_status now stage db =
     (if \<exists>r \<in> set (stage_status db). stage_name r = stage then
        Inr (db\<lparr>stage_status :=
               map (\<lambda>r. if stage_name r = stage
                         then r\<lparr>started_at := now, finished_at := None, stage_key := None\<rparr>
                         else r) (stage_status db)\<rparr>)
      else
        Inr (db\<lparr>stage_status := stage_status db @
               [\<lparr>stage_name = stage, started_at = now, finished_at = None, stage_key = None\<rparr>]\<rparr>))"

text \<open>\<^verbatim>\<open>DELETE FROM stage_file WHERE stage_name = %s\<close>\<close>

definition delete_stage_file :: "string \<Rightarrow> ledger \<Rightarrow> string option + ledger" where
  "delete_stage_file stage db =
     Inr (db\<lparr>stage_file := filter (\<lambda>(st, fn). st \<noteq> stage) (stage_file db)\<rparr>)"

text \<open>
  \<^verbatim>\<open>UPDATE stage_status SET finished_at = NOW(), stage_key = %(key)s
  WHERE stage_name = %(stage)s\<close>
\<close>

definition update_stage_status :: "nat \<Rightarrow> string \<Rightarrow> string option \<Rightarrow> ledger \<Rightarrow> string option + ledger" where
  "update_stage_status now stage key db =
     Inr (db\<lparr>stage_status :=
            map (\<lambda>r. if stage_name r = stage
                      then r\<lparr>finished_at := Some now, stage_key := key\<rparr>
                      else r) (stage_status db)\<rparr>)"

text \<open>
  \<^verbatim>\<open>INSERT INTO source_file (filename, checksum) VALUES (%(fn)s, %(hash)s)
  ON CONFLICT (filename) DO UPDATE SET reg_time = now(), checksum = %(hash)s\<close>
\<close>

definition insert_source_file :: "nat \<Rightarrow> string \<Rightarrow> string \<Rightarrow> ledger \<Rightarrow> string option + ledger" where
  "insert_source_file now fn hash db =
     (if \<exists>r \<in> set (source_file db). filename r = fn then
        Inr (db\<lparr>source_file :=
               map (\<lambda>r. if filename r = fn then r\<lparr>reg_time := now, checksum := hash\<rparr> else r)
                   (source_file db)\<rparr>)
      else
        Inr (db\<lparr>source_file := source_file db @
               [\<lparr>filename = fn, reg_time = now, checksum = hash\<rparr>]\<rparr>))"

text \<open>
  \<^verbatim>\<open>INSERT INTO stage_file (stage_name, filename) VALUES (%s, %s)\<close>. Both columns
  reference their tables (a missing row is SQLSTATE 23503), and the pair is the key of
  the table (a second row is SQLSTATE 23505).
\<close>

definition insert_stage_file :: "string \<Rightarrow> string \<Rightarrow> ledger \<Rightarrow> string option + ledger" where
  "insert_stage_file stage fn db =
     (if \<not> (\<exists>r \<in> set (stage_status db). stage_name r = stage) then Inl (Some ''23503'')
      else if \<not> (\<exists>r \<in> set (source_file db). filename r = fn) then Inl (Some ''23503'')
      else if (stage, fn) \<in> set (stage_file db) then Inl (Some ''23505'')
      else Inr (db\<lparr>stage_file := stage_file db @ [(stage, fn)]\<rparr>))"

text \<open>
  What \<^verbatim>\<open>save_file\<close> takes from its surroundings: the files (\<^verbatim>\<open>open\<close> fails for a path
  that has none), the hash object of \<^verbatim>\<open>hashlib.md5\<close> with \<^verbatim>\<open>update\<close> and \<^verbatim>\<open>hexdigest\<close>,
  \<^verbatim>\<open>Path(path).as_posix()\<close>, and the server's clock.
\<close>

record 'h env =
  fs :: "string \<Rightarrow> string option"
  md5_new :: 'h
  md5_update :: "'h \<Rightarrow> string \<Rightarrow> 'h"
  md5_hexdigest :: "'h \<Rightarrow> string"
  as_posix :: "string \<Rightarrow> string"
  clock :: nat

text \<open>
  The reading loop of \<^verbatim>\<open>save_file\<close>: blocks of \<^verbatim>\<open>8192 * 4\<close> bytes go to the hash object
  until a read returns nothing.
\<close>

function hash_blocks :: "('h \<Rightarrow> string \<Rightarrow> 'h) \<Rightarrow> 'h \<Rightarrow> string \<Rightarrow> 'h" where
  "hash_blocks upd h content =
     (let data = take (8192 * 4) content in
      if data \<noteq> [] then hash_blocks upd (upd h data) (drop (8192 * 4) content) else h)"
  by pat_completeness auto
termination
  by (relation "measure (\<lambda>(upd, h, content). length content)") auto

declare hash_blocks.simps [simp del]

text \<open>\<^verbatim>\<open>if stage:\<close> holds for a stage name that is neither \<^verbatim>\<open>None\<close> nor empty.\<close>

definition save_file ::
  "'h env \<Rightarrow> string \<Rightarrow> string option \<Rightarrow> ledger connection \<Rightarrow> (exc + unit) \<times> ledger connection" where
  "save_file E path stage cur =
     (case fs E path of
        None \<Rightarrow> (Inl (IOError path), cur)
      | Some content \<Rightarrow>
          (let hash = md5_hexdigest E (hash_blocks (md5_update E) (md5_new E) content);
               path' = as_posix E path
           in case cur_execute ''INSERT INTO source_file''
                     (insert_source_file (clock E) path' hash) cur of
                (Inl e, cur') \<Rightarrow> (Inl e, cur')
              | (Inr u, cur') \<Rightarrow>
                  (case stage of
                     None \<Rightarrow> (Inr (), cur')
                   | Some st \<Rightarrow>
                       if st \<noteq> [] then
                         cur_execute ''INSERT INTO stage_file'' (insert_stage_file st path') cur'
                       else (Inr (), cur'))))"

text \<open>
  The first argument of \<^verbatim>\<open>start_stage\<close> and \<^verbatim>\<open>finish_stage\<close> is a connection or a cursor
  of \<^verbatim>\<open>psycopg2\<close>. A connection has the method \<^verbatim>\<open>cursor\<close> and no method \<^verbatim>\<open>execute\<close>; a
  cursor has \<^verbatim>\<open>execute\<close> and no attribute \<^verbatim>\<open>cursor\<close>.
\<close>

datatype handle = Connection | Cursor

definition hasattr_cursor :: "handle \<Rightarrow> bool" where
  "hasattr_cursor h = (h = Connection)"

definition handle_execute ::
  "handle \<Rightarrow> string \<Rightarrow> ('db \<Rightarrow> string option + 'db) \<Rightarrow> 'db connection
     \<Rightarrow> (exc + unit) \<times> 'db connection" where
  "handle_execute h sql act c =
     (case h of Cursor \<Rightarrow> cur_execute sql act c
              | Connection \<Rightarrow> (Inl (AttributeError ''execute''), c))"

text \<open>
  \<^verbatim>\<open>start_stage\<close>: for a connection, the function calls itself with a cursor inside a
  \<^verbatim>\<open>with\<close> block; the statements after the \<^verbatim>\<open>if\<close> are reached in either case, with the
  handle that the function was given.
\<close>

function start_stage ::
  "nat \<Rightarrow> handle \<Rightarrow> string \<Rightarrow> ledger connection \<Rightarrow> (exc + unit) \<times> ledger connection" where
  "start_stage now cur stage c =
     (case (if hasattr_cursor cur
            then with_connection (\<lambda>c'. start_stage now Cursor stage c') c
            else (Inr (), c)) of
        (Inl e, c1) \<Rightarrow> (Inl e, c1)
      | (Inr u, c1) \<Rightarrow>
          (case handle_execute cur ''INSERT INTO stage_status'' (insert_stage_status now stage) c1 of
             (Inl e, c2) \<Rightarrow> (Inl e, c2)
           | (Inr u, c2) \<Rightarrow>
               handle_execute cur ''DELETE FROM stage_file'' (delete_stage_file stage) c2))"
  by pat_completeness auto
termination
  by (relation "measure (\<lambda>(now, cur, stage, c). if cur = Connection then 1 else 0)")
     (auto simp: hasattr_cursor_def)

declare start_stage.simps [simp del]

text \<open>\<^verbatim>\<open>finish_stage\<close> has the same shape.\<close>

function finish_stage ::
  "nat \<Rightarrow> handle \<Rightarrow> string \<Rightarrow> string option \<Rightarrow> ledger connection
     \<Rightarrow> (exc + unit) \<times> ledger connection" where
  "finish_stage now cur stage key c =
     (case (if hasattr_cursor cur
            then with_connection (\<lambda>c'. finish_stage now Cursor stage key c') c
            else (Inr (), c)) of
        (Inl e, c1) \<Rightarrow> (Inl e, c1)
      | (Inr u, c1) \<Rightarrow>
          handle_execute cur ''UPDATE stage_status'' (update_stage_status now stage key) c1)"
  by pat_completeness auto
termination
  by (relation "measure (\<lambda>(now, cur, stage, key, c). if cur = Connection then 1 else 0)")
     (auto simp: hasattr_cursor_def)

declare finish_stage.simps [simp del]

text \<open>
  States for the examples: a connection to an empty ledger with no transaction open, a
  file system with the one file \<^verbatim>\<open>f.txt\<close> and a toy hash, and the states of the
  connection in the course of some calls.
\<close>

definition empty_ledger :: ledger where
  "empty_ledger = \<lparr>stage_status = [], source_file = [], stage_file = []\<rparr>"

definition fresh_connection :: "ledger connection" where
  "fresh_connection = \<lparr>committed = empty_ledger, txn = Idle, autocommit = False, executed = []\<rparr>"

definition toy_env :: "string env" where
  "toy_env = \<lparr>fs = (\<lambda>p. if p = ''f.txt'' then Some ''abc'' else None),
              md5_new = [], md5_update = (\<lambda>h data. h @ data),
              md5_hexdigest = (\<lambda>h. ''md5:'' @ h),
              as_posix = (\<lambda>p. p), clock = 5\<rparr>"

definition in_transaction :: "ledger \<Rightarrow> string list \<Rightarrow> ledger connection" where
  "in_transaction db log = \<lparr>committed = empty_ledger, txn = Open db, autocommit = False, executed = log\<rparr>"

definition after_start :: "ledger connection" where
  "after_start = in_transaction
     \<lparr>stage_status = [\<lparr>stage_name = ''x'', started_at = 3, finished_at = None, stage_key = None\<rparr>],
      source_file = [], stage_file = []\<rparr>
     [''INSERT INTO stage_status'', ''DELETE FROM stage_file'']"

definition after_register :: "ledger connection" where
  "after_register = in_transaction
     \<lparr>stage_status = [\<lparr>stage_name = ''x'', started_at = 3, finished_at = None, stage_key = None\<rparr>],
      source_file = [\<lparr>filename = ''f.txt'', reg_time = 5, checksum = ''md5:abc''\<rparr>],
      stage_file = [(''x'', ''f.txt'')]\<rparr>
     [''INSERT INTO stage_status'', ''DELETE FROM stage_file'',
      ''INSERT INTO source_file'', ''INSERT INTO stage_file'']"

definition after_restart :: "ledger connection" where
  "after_restart = in_transaction
     \<lparr>stage_status = [\<lparr>stage_name = ''x'', started_at = 8, finished_at = None, stage_key = None\<rparr>],
      source_file = [\<lparr>filename = ''f.txt'', reg_time = 5, checksum = ''md5:abc''\<rparr>],
      stage_file = []\<rparr>
     [''INSERT INTO stage_status'', ''DELETE FROM stage_file'',
      ''INSERT INTO source_file'', ''INSERT INTO stage_file'',
      ''INSERT INTO stage_status'', ''DELETE FROM stage_file'']"

definition toy_env2 :: "string env" where
  "toy_env2 = toy_env\<lparr>fs := (\<lambda>p. if p = ''f.txt'' then Some ''abcdef'' else None), clock := 9\<rparr>"

definition registered_once :: "ledger connection" where
  "registered_once = in_transaction
     \<lparr>stage_status = [],
      source_file = [\<lparr>filename = ''f.txt'', reg_time = 5, checksum = ''md5:abc''\<rparr>],
      stage_file = []\<rparr>
     [''INSERT INTO source_file'']"

definition registered_twice :: "ledger connection" where
  "registered_twice = in_transaction
     \<lparr>stage_status = [],
      source_file = [\<lparr>filename = ''f.txt'', reg_time = 9, checksum = ''md5:abcdef''\<rparr>],
      stage_file = []\<rparr>
     [''INSERT INTO source_file'', ''INSERT INTO source_file'']"

section \<open>Properties of the parser\<close>

text \<open>
  The specification calls the failure of the parser on a malformed directive a
  configuration error. In the source that is one of two exceptions: the \<^verbatim>\<open>ValueError\<close>
  that \<^verbatim>\<open>_read_header\<close> raises for an instruction it does not know, and the
  \<^verbatim>\<open>AttributeError\<close> of the attribute lookup for the name of an \<^verbatim>\<open>allow\<close> directive.
\<close>

definition configuration_error :: "exc \<Rightarrow> bool" where
  "configuration_error e = (case e of ValueError m \<Rightarrow> True | AttributeError m \<Rightarrow> True | _ \<Rightarrow> False)"

lemma directive_error: "directive T h inst = Inl e \<Longrightarrow> configuration_error e"
  by (auto simp: directive_def upper_def getattr_errorcodes_def configuration_error_def
           split: option.splits if_splits sum.splits)

lemma read_header_loop_error:
  "read_header_loop T h lines = Inl e \<Longrightarrow> configuration_error e"
proof (induction lines arbitrary: h)
  case Nil
  then show ?case by (simp add: read_header_loop_Nil)
next
  case (Cons l ls)
  then show ?case
    by (auto simp: read_header_loop_Cons split: option.splits sum.splits dest: directive_error)
qed

lemma parse_chunk_error: "parse_chunk T lines n = Inl e \<Longrightarrow> configuration_error e"
  by (auto simp: parse_chunk_def read_header_def read_query_def read_query_loop_eq Let_def
           split: sum.splits prod.splits option.splits if_splits dest: read_header_loop_error)

lemma parse_loop_error: "parse_loop T chunks lines = Inl e \<Longrightarrow> configuration_error e"
proof (induction T chunks lines rule: parse_loop.induct)
  case (1 T chunks lines)
  show ?case
  proof (cases "parse_chunk T lines (length chunks + 1)")
    case (Inl e')
    with "1.prems" have "e' = e" by (simp add: parse_loop.simps [of T chunks lines])
    with Inl show ?thesis by (auto dest: parse_chunk_error)
  next
    case (Inr p)
    obtain r rest where p: "p = (r, rest)" by (cases p)
    show ?thesis
    proof (cases r)
      case (Chunk c)
      with "1.prems" Inr p have "parse_loop T (chunks @ [c]) rest = Inl e"
        by (simp add: parse_loop.simps [of T chunks lines])
      with "1.IH"(1) [OF Inr [unfolded p] refl Chunk] show ?thesis by simp
    next
      case PyFalse
      with "1.prems" Inr p have "parse_loop T chunks rest = Inl e"
        by (simp add: parse_loop.simps [of T chunks lines])
      with "1.IH"(2) [OF Inr [unfolded p] refl PyFalse] show ?thesis by simp
    next
      case PyNone
      with "1.prems" Inr p show ?thesis
        by (simp add: parse_loop.simps [of T chunks lines])
    qed
  qed
qed

lemma read_header_loop_allow:
  assumes "sep_match line = Some inst" and "icode_match inst = Some (''allow'', args)"
    and "case upper args of Inl e \<Rightarrow> True | Inr name \<Rightarrow> map_of T name = None"
  shows "\<exists>m. read_header_loop T h (line # rest) = Inl (AttributeError m)"
  using assms
  by (auto simp: read_header_loop_Cons directive_def upper_def getattr_errorcodes_def
           split: option.splits sum.splits)

lemma read_header_loop_invalid:
  assumes "sep_match line = Some inst" and "icode_match inst = Some (code, args)"
    and "code \<noteq> ''step''" "code \<noteq> ''allow''" "code \<noteq> ''notx''"
  shows "read_header_loop T h (line # rest) = Inl (ValueError (''invalid query instruction '' @ code))"
  using assms
  by (auto simp: read_header_loop_Cons directive_def)

text \<open>
  Claim C4. For every text and every table of error codes, \<open>parse\<close> returns a list of
  chunks or raises a configuration error; no other exception (\<^verbatim>\<open>StopIteration\<close> of
  \<^verbatim>\<open>next\<close>, \<^verbatim>\<open>KeyError\<close>, a database or file error) leaves the parser. Whenever the
  header loop is at an \<^verbatim>\<open>allow\<close> directive whose name is missing or, in upper case, not
  in the table, it raises \<^verbatim>\<open>AttributeError\<close>; whenever it is at a directive whose
  instruction code is none of \<^verbatim>\<open>step\<close>, \<^verbatim>\<open>allow\<close>, \<^verbatim>\<open>notx\<close>, it raises the
  \<^verbatim>\<open>ValueError\<close> "invalid query instruction".
\<close>

theorem parse_total:
  "((\<exists>chunks. parse T text = Inr chunks) \<or> (\<exists>e. parse T text = Inl e \<and> configuration_error e))
   \<and> (\<forall>line inst args h rest.
         sep_match line = Some inst \<and> icode_match inst = Some (''allow'', args)
           \<and> (case upper args of Inl e \<Rightarrow> True | Inr name \<Rightarrow> map_of T name = None)
         \<longrightarrow> (\<exists>m. read_header_loop T h (line # rest) = Inl (AttributeError m)
                  \<and> configuration_error (AttributeError m)))
   \<and> (\<forall>line inst code args h rest.
         sep_match line = Some inst \<and> icode_match inst = Some (code, args)
           \<and> code \<noteq> ''step'' \<and> code \<noteq> ''allow'' \<and> code \<noteq> ''notx''
         \<longrightarrow> read_header_loop T h (line # rest)
               = Inl (ValueError (''invalid query instruction '' @ code))
             \<and> configuration_error (ValueError (''invalid query instruction '' @ code)))"
proof (intro conjI allI impI)
  show "(\<exists>chunks. parse T text = Inr chunks) \<or> (\<exists>e. parse T text = Inl e \<and> configuration_error e)"
  proof (cases "parse T text")
    case (Inl e)
    then have "configuration_error e" by (auto simp: parse_def dest: parse_loop_error)
    with Inl show ?thesis by simp
  next
    case (Inr chunks)
    then show ?thesis by simp
  qed
next
  fix line inst args h rest
  assume "sep_match line = Some inst \<and> icode_match inst = Some (''allow'', args)
           \<and> (case upper args of Inl e \<Rightarrow> True | Inr name \<Rightarrow> map_of T name = None)"
  then show "\<exists>m. read_header_loop T h (line # rest) = Inl (AttributeError m)
                  \<and> configuration_error (AttributeError m)"
    using read_header_loop_allow [of line inst args T h rest]
    by (auto simp: configuration_error_def)
next
  fix line inst code args h rest
  assume a: "sep_match line = Some inst \<and> icode_match inst = Some (code, args)
           \<and> code \<noteq> ''step'' \<and> code \<noteq> ''allow'' \<and> code \<noteq> ''notx''"
  then show "read_header_loop T h (line # rest)
               = Inl (ValueError (''invalid query instruction '' @ code))"
    using read_header_loop_invalid [of line inst code args T h rest] by simp
  show "configuration_error (ValueError (''invalid query instruction '' @ code))"
    by (simp add: configuration_error_def)
qed

theorem parse_total_witness:
  "sep_match (''--- #allow no_such_error'' @ [newline]) = Some ''#allow no_such_error''
   \<and> icode_match ''#allow no_such_error'' = Some (''allow'', Some ''no_such_error'')
   \<and> upper (Some ''no_such_error'') = Inr ''NO_SUCH_ERROR''
   \<and> map_of [(''DUPLICATE_TABLE'', ''42P07'')] ''NO_SUCH_ERROR'' = None
   \<and> read_header_loop [(''DUPLICATE_TABLE'', ''42P07'')] (Header None [] True)
         [''--- #allow no_such_error'' @ [newline], ''SELECT 1;'']
       = Inl (AttributeError ''NO_SUCH_ERROR'')
   \<and> parse [(''DUPLICATE_TABLE'', ''42P07'')] (''--- #allow no_such_error'' @ [newline] @ ''SELECT 1;'')
       = Inl (AttributeError ''NO_SUCH_ERROR'')
   \<and> sep_match (''--- #frobnicate now'' @ [newline]) = Some ''#frobnicate now''
   \<and> icode_match ''#frobnicate now'' = Some (''frobnicate'', Some ''now'')
   \<and> read_header_loop [(''DUPLICATE_TABLE'', ''42P07'')] (Header None [] True)
         [''--- #frobnicate now'' @ [newline], ''SELECT 1;'']
       = Inl (ValueError ''invalid query instruction frobnicate'')
   \<and> parse [(''DUPLICATE_TABLE'', ''42P07'')] (''--- #frobnicate now'' @ [newline] @ ''SELECT 1;'')
       = Inl (ValueError ''invalid query instruction frobnicate'')
   \<and> parse [(''DUPLICATE_TABLE'', ''42P07'')] (''--- #allow duplicate_table'' @ [newline] @ ''SELECT 1;'')
       = Inr [\<lparr>label = ''Step 1'', allowed_errors = [''42P07''], src = ''SELECT 1;'',
                use_transaction = True\<rparr>]"
proof -
  let ?T = "[(''DUPLICATE_TABLE'', ''42P07'')]"
  let ?l1 = "''--- #allow no_such_error'' @ [newline]"
  let ?l2 = "''--- #frobnicate now'' @ [newline]"
  note pt = parse_total [of ?T "?l1 @ ''SELECT 1;''"]
  have a1: "sep_match ?l1 = Some ''#allow no_such_error''" by code_simp
  have a2: "icode_match ''#allow no_such_error'' = Some (''allow'', Some ''no_such_error'')"
    by code_simp
  have a3: "upper (Some ''no_such_error'') = Inr ''NO_SUCH_ERROR''" by code_simp
  have a4: "map_of ?T ''NO_SUCH_ERROR'' = None" by simp
  from a3 a4 have a5: "case upper (Some ''no_such_error'') of Inl e \<Rightarrow> True
                        | Inr name \<Rightarrow> map_of ?T name = None"
    by simp
  from pt [THEN conjunct2, THEN conjunct1, rule_format,
            of ?l1 "''#allow no_such_error''" "Some ''no_such_error''" "Header None [] True" "[''SELECT 1;'']"]
       a1 a2 a5
  obtain m where r1: "read_header_loop ?T (Header None [] True) [?l1, ''SELECT 1;'']
                        = Inl (AttributeError m)"
    by blast
  have r1': "read_header_loop ?T (Header None [] True) [?l1, ''SELECT 1;'']
               = Inl (AttributeError ''NO_SUCH_ERROR'')"
    by code_simp
  have p1: "parse ?T (?l1 @ ''SELECT 1;'') = Inl (AttributeError ''NO_SUCH_ERROR'')"
    by code_simp
  have b1: "sep_match ?l2 = Some ''#frobnicate now''" by code_simp
  have b2: "icode_match ''#frobnicate now'' = Some (''frobnicate'', Some ''now'')" by code_simp
  have b3: "''frobnicate'' \<noteq> ''step'' \<and> ''frobnicate'' \<noteq> ''allow'' \<and> ''frobnicate'' \<noteq> ''notx''"
    by simp
  from pt [THEN conjunct2, THEN conjunct2, rule_format,
            of ?l2 "''#frobnicate now''" "''frobnicate''" "Some ''now''" "Header None [] True" "[''SELECT 1;'']"]
       b1 b2 b3
  have r2: "read_header_loop ?T (Header None [] True) [?l2, ''SELECT 1;'']
              = Inl (ValueError (''invalid query instruction '' @ ''frobnicate''))"
    by blast
  have p2: "parse ?T (?l2 @ ''SELECT 1;'')
              = Inl (ValueError ''invalid query instruction frobnicate'')"
    by code_simp
  have p3: "parse ?T (''--- #allow duplicate_table'' @ [newline] @ ''SELECT 1;'')
       = Inr [\<lparr>label = ''Step 1'', allowed_errors = [''42P07''], src = ''SELECT 1;'',
                use_transaction = True\<rparr>]"
    by code_simp
  from a1 a2 a3 a4 r1' p1 b1 b2 r2 p2 p3 show ?thesis by simp
qed

lemma all_blank_trim: "\<forall>l \<in> set body. blank l \<Longrightarrow> trim_lines body = []"
  by (auto simp: trim_lines_def dropWhile_eq_Nil_conv dest: set_dropWhileD)

lemma parse_chunk_Nil: "parse_chunk T [] n = Inr (PyNone, [])"
  by (simp add: parse_chunk_def read_header_def read_header_loop_Nil read_query_def
        read_query_loop_eq trim_lines_def peek_def)

lemma parse_loop_Nil: "parse_loop T chunks [] = Inr chunks"
  by (simp add: parse_loop.simps [of T chunks "[]"] parse_chunk_Nil)

lemma read_query_blank:
  assumes "\<forall>l \<in> set body. sep_match l = None \<and> blank l"
    and "rest = [] \<or> sep_match (hd rest) \<noteq> None"
  shows "read_query (body @ rest) = Inr (if rest = [] then None else Some [], rest)"
proof -
  let ?ns = "\<lambda>l. sep_match l = None"
  from assms(2) have dr: "dropWhile ?ns rest = rest" and tr: "takeWhile ?ns rest = []"
    by (cases rest; auto)+
  from assms(1) have tw: "takeWhile ?ns (body @ rest) = body"
    and dw: "dropWhile ?ns (body @ rest) = rest"
    using dr tr by simp_all
  from assms(1) have "trim_lines body = []" by (simp add: all_blank_trim)
  then have "read_query (body @ rest) = Inr (if peek rest \<noteq> None then Some [] else None, rest)"
    by (simp add: read_query_def read_query_loop_eq tw dw)
  then show ?thesis
    by (cases rest) (simp_all add: peek_def)
qed

text \<open>
  Claim C5. The script of the two directive lines \<^verbatim>\<open>--- #step a\<close> and \<^verbatim>\<open>--- #step b\<close>
  and the line \<^verbatim>\<open>SELECT 1;\<close> parses to exactly one chunk, labelled \<^verbatim>\<open>b\<close>. A run of
  header lines \<open>hdr\<close> that the header loop accepts, followed by a body of blank lines
  only, up to the next directive line or the end of the input, adds no chunk and raises
  no error: parsing goes on with the rest of the input and the same chunks.
\<close>

theorem empty_chunk_dropped:
  "parse T (''--- #step a'' @ [newline] @ ''--- #step b'' @ [newline] @ ''SELECT 1;'')
     = Inr [\<lparr>label = ''b'', allowed_errors = [], src = ''SELECT 1;'', use_transaction = True\<rparr>]
   \<and> (\<forall>hdr body rest h chunks.
         read_header T (hdr @ body @ rest) = Inr (h, body @ rest)
           \<and> (\<forall>l \<in> set body. sep_match l = None \<and> blank l)
           \<and> (rest = [] \<or> sep_match (hd rest) \<noteq> None)
         \<longrightarrow> parse_loop T chunks (hdr @ body @ rest) = parse_loop T chunks rest)"
proof (intro conjI allI impI)
  show "parse T (''--- #step a'' @ [newline] @ ''--- #step b'' @ [newline] @ ''SELECT 1;'')
     = Inr [\<lparr>label = ''b'', allowed_errors = [], src = ''SELECT 1;'', use_transaction = True\<rparr>]"
    by code_simp
next
  fix hdr body rest h chunks
  assume a: "read_header T (hdr @ body @ rest) = Inr (h, body @ rest)
           \<and> (\<forall>l \<in> set body. sep_match l = None \<and> blank l)
           \<and> (rest = [] \<or> sep_match (hd rest) \<noteq> None)"
  then have rq: "read_query (body @ rest) = Inr (if rest = [] then None else Some [], rest)"
    by (intro read_query_blank) simp_all
  show "parse_loop T chunks (hdr @ body @ rest) = parse_loop T chunks rest"
  proof (cases "rest = []")
    case True
    with a rq show ?thesis
      by (simp add: parse_loop.simps [of T chunks "hdr @ body"] parse_chunk_def parse_loop_Nil)
  next
    case False
    with a rq show ?thesis
      by (simp add: parse_loop.simps [of T chunks "hdr @ body @ rest"] parse_chunk_def)
  qed
qed

theorem empty_chunk_dropped_witness:
  "read_header [] ([''--- #step a'' @ [newline]] @ [[newline]] @ [''--- #step b'' @ [newline], ''SELECT 1;''])
      = Inr (Header (Some ''a'') [] True, [[newline]] @ [''--- #step b'' @ [newline], ''SELECT 1;''])
   \<and> sep_match [newline] = None \<and> blank [newline]
   \<and> sep_match (hd [''--- #step b'' @ [newline], ''SELECT 1;'']) \<noteq> None
   \<and> parse_loop [] [] ([''--- #step a'' @ [newline]] @ [[newline]] @ [''--- #step b'' @ [newline], ''SELECT 1;''])
      = parse_loop [] [] [''--- #step b'' @ [newline], ''SELECT 1;'']
   \<and> parse_loop [] [] [''--- #step b'' @ [newline], ''SELECT 1;'']
      = Inr [\<lparr>label = ''b'', allowed_errors = [], src = ''SELECT 1;'', use_transaction = True\<rparr>]"
proof -
  let ?hdr = "[''--- #step a'' @ [newline]]"
  let ?body = "[[newline]]"
  let ?rest = "[''--- #step b'' @ [newline], ''SELECT 1;'']"
  have h1: "read_header [] (?hdr @ ?body @ ?rest) = Inr (Header (Some ''a'') [] True, ?body @ ?rest)"
    by code_simp
  have h2: "\<forall>l \<in> set ?body. sep_match l = None \<and> blank l"
    by (simp add: newline_def sep_match_def blank_def strip_def rstrip_def is_space_def)
  have h3: "?rest = [] \<or> sep_match (hd ?rest) \<noteq> None"
    by (simp add: newline_def sep_match_def)
  have h4: "parse_loop [] [] ?rest
      = Inr [\<lparr>label = ''b'', allowed_errors = [], src = ''SELECT 1;'', use_transaction = True\<rparr>]"
    by code_simp
  from empty_chunk_dropped [of "[]", THEN conjunct2, rule_format, of ?hdr ?body ?rest _ "[]"] h1 h2 h3
  have "parse_loop [] [] (?hdr @ ?body @ ?rest) = parse_loop [] [] ?rest" by blast
  with h1 h2 h3 h4 show ?thesis by simp
qed

text \<open>
  Claim C10. A line that matches the directive marker and whose instruction text does
  not match \<^verbatim>\<open>_icode_re\<close> is taken by the header loop and changes nothing: the loop goes
  on behind it with the same label, tolerated codes and transaction flag, and raises
  nothing for it. The body of every chunk is made of lines that do not match the marker,
  so the line is in no body.
\<close>

theorem undecodable_directive_ignored:
  assumes "sep_match line = Some inst" and "icode_match inst = None"
  shows "read_header_loop T h (line # rest) = read_header_loop T h rest
       \<and> (\<forall>lines n c rest'. parse_chunk T lines n = Inr (Chunk c, rest') \<longrightarrow>
            (\<exists>qls. src c = join [newline] qls \<and> line \<notin> set qls
                   \<and> (\<forall>l \<in> set qls. sep_match l = None)))"
proof (intro conjI allI impI)
  from assms show "read_header_loop T h (line # rest) = read_header_loop T h rest"
    by (simp add: read_header_loop_Cons directive_def)
next
  fix lines n c rest'
  let ?ns = "\<lambda>l. sep_match l = None"
  assume pc: "parse_chunk T lines n = Inr (Chunk c, rest')"
  then obtain r1 where sc: "src c = join [newline] (trim_lines (takeWhile ?ns r1))"
    by (auto simp: parse_chunk_def read_query_def read_query_loop_eq Let_def
             split: sum.splits option.splits if_splits)
  have "set (trim_lines (takeWhile ?ns r1)) \<subseteq> set (takeWhile ?ns r1)"
    unfolding trim_lines_def
    by (metis set_dropWhileD set_rev subsetI)
  then have ns: "\<forall>l \<in> set (trim_lines (takeWhile ?ns r1)). sep_match l = None"
    by (auto dest: set_takeWhileD)
  with assms(1) have "line \<notin> set (trim_lines (takeWhile ?ns r1))"
    by (metis option.distinct(1))
  with sc ns show "\<exists>qls. src c = join [newline] qls \<and> line \<notin> set qls
                   \<and> (\<forall>l \<in> set qls. sep_match l = None)"
    by blast
qed

theorem undecodable_directive_ignored_witness:
  "sep_match (''---'' @ [newline]) = Some []
   \<and> icode_match [] = None
   \<and> read_header_loop [] (Header None [] True) [''---'' @ [newline], ''SELECT 1;'']
       = read_header_loop [] (Header None [] True) [''SELECT 1;'']
   \<and> read_header_loop [] (Header None [] True) [''SELECT 1;'']
       = Inr (Header None [] True, [''SELECT 1;''])
   \<and> sep_match (''--- some comment'' @ [newline]) = Some ''some comment''
   \<and> icode_match ''some comment'' = None
   \<and> parse [] (''--- some comment'' @ [newline] @ ''SELECT 1;'' @ [newline] @ ''---'' @ [newline]
                 @ ''SELECT 2;'' @ [newline])
       = Inr [\<lparr>label = ''Step 1'', allowed_errors = [], src = ''SELECT 1;'' @ [newline],
                use_transaction = True\<rparr>,
              \<lparr>label = ''Step 2'', allowed_errors = [], src = ''SELECT 2;'' @ [newline],
                use_transaction = True\<rparr>]"
proof -
  have a1: "sep_match (''---'' @ [newline]) = Some []" by code_simp
  have a2: "icode_match [] = None" by code_simp
  from undecodable_directive_ignored [OF a1 a2, of "[]" "Header None [] True" "[''SELECT 1;'']"]
  have r: "read_header_loop [] (Header None [] True) [''---'' @ [newline], ''SELECT 1;'']
       = read_header_loop [] (Header None [] True) [''SELECT 1;'']"
    by blast
  have r2: "read_header_loop [] (Header None [] True) [''SELECT 1;'']
       = Inr (Header None [] True, [''SELECT 1;''])"
    by code_simp
  have b1: "sep_match (''--- some comment'' @ [newline]) = Some ''some comment''" by code_simp
  have b2: "icode_match ''some comment'' = None" by code_simp
  have p: "parse [] (''--- some comment'' @ [newline] @ ''SELECT 1;'' @ [newline] @ ''---'' @ [newline]
                 @ ''SELECT 2;'' @ [newline])
       = Inr [\<lparr>label = ''Step 1'', allowed_errors = [], src = ''SELECT 1;'' @ [newline],
                use_transaction = True\<rparr>,
              \<lparr>label = ''Step 2'', allowed_errors = [], src = ''SELECT 2;'' @ [newline],
                use_transaction = True\<rparr>]"
    by code_simp
  from a1 a2 r r2 b1 b2 p show ?thesis by simp
qed

section \<open>Properties of the classifier and of describe\<close>

text \<open>
  Claim C6, as the specification states it, fails for the third statement: the label of
  \<^verbatim>\<open>INSERT INTO bar VALUES (...)\<close> is not \<^verbatim>\<open>INSERT INTO bar\<close>.
\<close>

theorem classifier_insert_counterexample:
  "describe_statement insert_into_bar \<noteq> Some ''INSERT INTO bar''"
  by code_simp

text \<open>
  Claim C6, amended. The classifier maps \<^verbatim>\<open>CREATE TABLE IF NOT EXISTS foo (...)\<close> to
  \<^verbatim>\<open>CREATE TABLE foo\<close> and \<^verbatim>\<open>SELECT * FROM t\<close> to \<^verbatim>\<open>SELECT\<close>; it maps
  \<^verbatim>\<open>INSERT INTO bar VALUES (...)\<close> to \<^verbatim>\<open>INSERT\<close>, the statement type: keywords and name
  are collected only for a DDL statement and for a statement of unknown type, and
  \<^verbatim>\<open>INSERT\<close> is neither.
\<close>

theorem classifier_golden_cases:
  "str_statement create_table_foo = ''CREATE TABLE IF NOT EXISTS foo (...)''
   \<and> describe_statement create_table_foo = Some ''CREATE TABLE foo''
   \<and> str_statement select_from_t = ''SELECT * FROM t''
   \<and> describe_statement select_from_t = Some ''SELECT''
   \<and> str_statement insert_into_bar = ''INSERT INTO bar VALUES (...)''
   \<and> describe_statement insert_into_bar = Some ''INSERT''"
  by code_simp

text \<open>
  Claim C7, as the specification states it, fails: \<^verbatim>\<open>describe\<close> returns \<^verbatim>\<open>None\<close>, not
  the sequence of pairs, here for a script of one chunk with one statement.
\<close>

theorem describe_pairs_counterexample:
  "fst (describe one_select [select_chunk] []) \<noteq> Some (spec_describe_pairs one_select [select_chunk])"
  by (simp add: describe_def)

lemma fold_log: "fold (\<lambda>s l. l @ [f s]) xs log = log @ map f xs"
  by (induction xs arbitrary: log) simp_all

lemma describe_loop_eq:
  "describe_loop sqlparse chunks log =
     log @ concat (map (\<lambda>step. Log_Chunk (label step) #
                         map (\<lambda>s. Log_Statement (describe_statement s)) (statements sqlparse step))
                       chunks)"
  by (induction chunks arbitrary: log) (simp_all add: fold_log)

text \<open>
  Claim C7, amended. \<^verbatim>\<open>describe\<close> takes no connection and executes nothing; it returns
  \<^verbatim>\<open>None\<close>, and what it produces goes to the log, at once: for each chunk in order one
  record with the chunk's label, followed by one record with the statement's label for
  each statement of the chunk that is not empty, in source order.
\<close>

theorem describe_logs:
  "describe sqlparse chunks log =
     (None,
      log @ concat (map (\<lambda>step. Log_Chunk (label step) #
                          map (\<lambda>s. Log_Statement (describe_statement s)) (statements sqlparse step))
                        chunks))"
  by (simp add: describe_def describe_loop_eq)


section \<open>Properties of the ledger\<close>

lemma cur_execute_ok:
  "cur_execute sql act c = (Inr u, c') \<Longrightarrow>
     act (current_db c) = Inr (current_db c') \<and> autocommit c' = autocommit c
     \<and> (autocommit c' \<or> txn c' \<noteq> Aborted)"
  by (auto simp: cur_execute_def current_db_def Let_def split: if_splits txn.splits sum.splits)

lemma cur_execute_succeeds:
  "autocommit c \<or> txn c \<noteq> Aborted \<Longrightarrow> act (current_db c) = Inr db \<Longrightarrow>
     \<exists>c'. cur_execute sql act c = (Inr (), c')"
  by (auto simp: cur_execute_def current_db_def Let_def split: if_splits txn.splits sum.splits)

lemma start_stage_Cursor:
  "start_stage now Cursor stage c =
     (case cur_execute ''INSERT INTO stage_status'' (insert_stage_status now stage) c of
        (Inl e, c2) \<Rightarrow> (Inl e, c2)
      | (Inr u, c2) \<Rightarrow> cur_execute ''DELETE FROM stage_file'' (delete_stage_file stage) c2)"
  by (simp add: start_stage.simps [of now Cursor stage c] hasattr_cursor_def handle_execute_def
           split: prod.splits sum.splits)

lemma finish_stage_Cursor:
  "finish_stage now Cursor stage key c =
     cur_execute ''UPDATE stage_status'' (update_stage_status now stage key) c"
  by (simp add: finish_stage.simps [of now Cursor stage key c] hasattr_cursor_def handle_execute_def)

lemma insert_stage_status_ok: "\<exists>db'. insert_stage_status now stage db = Inr db'"
  by (simp add: insert_stage_status_def)

lemma delete_stage_file_rows:
  "delete_stage_file stage db = Inr db' \<Longrightarrow>
     filter (\<lambda>(st, fn). st = stage) (stage_file db') = []"
  by (auto simp: delete_stage_file_def filter_empty_conv)

lemma start_stage_cursor_rows:
  assumes "start_stage now Cursor stage c = (Inr (), c')"
  shows "filter (\<lambda>(st, fn). st = stage) (stage_file (current_db c')) = []"
proof -
  from assms obtain c2 where
    e2: "cur_execute ''DELETE FROM stage_file'' (delete_stage_file stage) c2 = (Inr (), c')"
    by (auto simp: start_stage_Cursor split: prod.splits sum.splits)
  from cur_execute_ok [where act = "delete_stage_file stage", OF e2]
  have "delete_stage_file stage (current_db c2) = Inr (current_db c')" by blast
  then show ?thesis by (rule delete_stage_file_rows)
qed

lemma start_stage_cursor_returns:
  assumes "autocommit c \<or> txn c \<noteq> Aborted"
  shows "\<exists>c'. start_stage now Cursor stage c = (Inr (), c')"
proof -
  obtain db1 where d1: "insert_stage_status now stage (current_db c) = Inr db1"
    using insert_stage_status_ok by blast
  from cur_execute_succeeds [where act = "insert_stage_status now stage"
         and sql = "''INSERT INTO stage_status''", OF assms d1] obtain c1 where
    e1: "cur_execute ''INSERT INTO stage_status'' (insert_stage_status now stage) c = (Inr (), c1)"
    by blast
  from cur_execute_ok [where act = "insert_stage_status now stage", OF e1]
  have ok1: "autocommit c1 \<or> txn c1 \<noteq> Aborted" by blast
  have d2: "delete_stage_file stage (current_db c1)
              = Inr ((current_db c1)\<lparr>stage_file := filter (\<lambda>(st, fn). st \<noteq> stage)
                                                        (stage_file (current_db c1))\<rparr>)"
    by (simp add: delete_stage_file_def)
  from cur_execute_succeeds [where act = "delete_stage_file stage"
         and sql = "''DELETE FROM stage_file''", OF ok1 d2] obtain c2 where
    "cur_execute ''DELETE FROM stage_file'' (delete_stage_file stage) c1 = (Inr (), c2)"
    by blast
  with e1 show ?thesis by (simp add: start_stage_Cursor)
qed

text \<open>
  Claim C8. After \<^verbatim>\<open>start_stage\<close> with a cursor has returned, the database that the
  connection sees has no row of \<^verbatim>\<open>stage_file\<close> for the stage, whatever the ledger was
  before; and the call does return, unless the transaction of the connection is already
  aborted. So the sequence start, register \<^verbatim>\<open>f.txt\<close> under the stage, start again leaves
  no row for the stage.
\<close>

theorem start_stage_wipes_files:
  "(\<forall>c'. start_stage now Cursor stage c = (Inr (), c') \<longrightarrow>
        filter (\<lambda>(st, fn). st = stage) (stage_file (current_db c')) = [])
   \<and> (autocommit c \<or> txn c \<noteq> Aborted \<longrightarrow> (\<exists>c'. start_stage now Cursor stage c = (Inr (), c')))
   \<and> (\<forall>(E :: 'h env) now2 c1 c2 c3.
         start_stage now Cursor ''x'' c = (Inr (), c1)
           \<and> save_file E ''f.txt'' (Some ''x'') c1 = (Inr (), c2)
           \<and> start_stage now2 Cursor ''x'' c2 = (Inr (), c3)
         \<longrightarrow> filter (\<lambda>(st, fn). st = ''x'') (stage_file (current_db c3)) = [])"
proof (intro conjI allI impI)
  fix c'
  assume "start_stage now Cursor stage c = (Inr (), c')"
  then show "filter (\<lambda>(st, fn). st = stage) (stage_file (current_db c')) = []"
    by (rule start_stage_cursor_rows)
next
  assume "autocommit c \<or> txn c \<noteq> Aborted"
  then show "\<exists>c'. start_stage now Cursor stage c = (Inr (), c')"
    by (rule start_stage_cursor_returns)
next
  fix E :: "'h env" and now2 c1 c2 c3
  assume "start_stage now Cursor ''x'' c = (Inr (), c1)
           \<and> save_file E ''f.txt'' (Some ''x'') c1 = (Inr (), c2)
           \<and> start_stage now2 Cursor ''x'' c2 = (Inr (), c3)"
  then have "start_stage now2 Cursor ''x'' c2 = (Inr (), c3)" by simp
  then show "filter (\<lambda>(st, fn). st = ''x'') (stage_file (current_db c3)) = []"
    by (rule start_stage_cursor_rows)
qed

lemma hash_blocks_small:
  "length content \<le> 8192 * 4 \<Longrightarrow>
     hash_blocks upd h content = (if content = [] then h else upd h content)"
  by (simp add: hash_blocks.simps [of upd h content] hash_blocks.simps [of upd "upd h content" "[]"])

lemmas eval_ledger = save_file_def cur_execute_def insert_source_file_def insert_stage_file_def
  hash_blocks_small current_db_def in_transaction_def empty_ledger_def fresh_connection_def Let_def

theorem start_stage_wipes_files_witness:
  "(autocommit fresh_connection \<or> txn fresh_connection \<noteq> Aborted)
   \<and> start_stage 3 Cursor ''x'' fresh_connection = (Inr (), after_start)
   \<and> save_file toy_env ''f.txt'' (Some ''x'') after_start = (Inr (), after_register)
   \<and> stage_file (current_db after_register) = [(''x'', ''f.txt'')]
   \<and> start_stage 8 Cursor ''x'' after_register = (Inr (), after_restart)
   \<and> filter (\<lambda>(st, fn). st = ''x'') (stage_file (current_db after_restart)) = []"
proof -
  have a0: "autocommit fresh_connection \<or> txn fresh_connection \<noteq> Aborted" by code_simp
  have a1: "start_stage 3 Cursor ''x'' fresh_connection = (Inr (), after_start)" by code_simp
  have a2: "save_file toy_env ''f.txt'' (Some ''x'') after_start = (Inr (), after_register)"
    by (simp add: eval_ledger toy_env_def after_start_def after_register_def)
  have a3: "stage_file (current_db after_register) = [(''x'', ''f.txt'')]" by code_simp
  have a4: "start_stage 8 Cursor ''x'' after_register = (Inr (), after_restart)" by code_simp
  from start_stage_wipes_files [of 3 "''x''" fresh_connection, THEN conjunct2, THEN conjunct2,
         rule_format, of after_start toy_env after_register 8 after_restart] a1 a2 a4
  have "filter (\<lambda>(st, fn). st = ''x'') (stage_file (current_db after_restart)) = []" by blast
  with a0 a1 a2 a3 a4 show ?thesis by blast
qed

lemma start_stage_Connection:
  "\<exists>e c'. start_stage now Connection stage c = (Inl e, c')"
  by (auto simp: start_stage.simps [of now Connection stage c] hasattr_cursor_def
        handle_execute_def split: prod.splits sum.splits)

lemma finish_stage_Connection:
  "\<exists>e c'. finish_stage now Connection stage key c = (Inl e, c')"
  by (auto simp: finish_stage.simps [of now Connection stage key c] hasattr_cursor_def
        handle_execute_def split: prod.splits sum.splits)

text \<open>
  Claim C1 fails on the code. With a connection, \<^verbatim>\<open>start_stage\<close> and \<^verbatim>\<open>finish_stage\<close>
  run the cursor form inside the \<^verbatim>\<open>with\<close> block and commit it, but there is no
  \<^verbatim>\<open>return\<close> after the block: the statements after the \<^verbatim>\<open>if\<close> run again, on the
  connection itself, which has no method \<^verbatim>\<open>execute\<close>. Every call with a connection
  raises; on a fresh connection the ledger update is committed and the caller gets an
  \<^verbatim>\<open>AttributeError\<close>.
\<close>

theorem stage_connection_handle_raises:
  "(\<exists>e c'. start_stage now Connection stage c = (Inl e, c'))
   \<and> (\<exists>e c'. finish_stage now Connection stage key c = (Inl e, c'))
   \<and> start_stage 3 Connection ''x'' fresh_connection
       = (Inl (AttributeError ''execute''), commit after_start)
   \<and> stage_status (committed (commit after_start))
       = [\<lparr>stage_name = ''x'', started_at = 3, finished_at = None, stage_key = None\<rparr>]
   \<and> fst (finish_stage 4 Connection ''x'' (Some ''k'') (commit after_start))
       = Inl (AttributeError ''execute'')
   \<and> stage_status (committed (snd (finish_stage 4 Connection ''x'' (Some ''k'') (commit after_start))))
       = [\<lparr>stage_name = ''x'', started_at = 3, finished_at = Some 4, stage_key = Some ''k''\<rparr>]"
proof (intro conjI)
  show "\<exists>e c'. start_stage now Connection stage c = (Inl e, c')"
    by (rule start_stage_Connection)
  show "\<exists>e c'. finish_stage now Connection stage key c = (Inl e, c')"
    by (rule finish_stage_Connection)
  show "start_stage 3 Connection ''x'' fresh_connection
       = (Inl (AttributeError ''execute''), commit after_start)"
    by code_simp
  show "stage_status (committed (commit after_start))
       = [\<lparr>stage_name = ''x'', started_at = 3, finished_at = None, stage_key = None\<rparr>]"
    by code_simp
  show "fst (finish_stage 4 Connection ''x'' (Some ''k'') (commit after_start))
       = Inl (AttributeError ''execute'')"
    by code_simp
  show "stage_status (committed (snd (finish_stage 4 Connection ''x'' (Some ''k'') (commit after_start))))
       = [\<lparr>stage_name = ''x'', started_at = 3, finished_at = Some 4, stage_key = Some ''k''\<rparr>]"
    by code_simp
qed

lemma filter_map_other:
  "\<forall>r \<in> set rows. filename r \<noteq> fn \<Longrightarrow>
     filter (\<lambda>r. filename r = fn) (map (\<lambda>r. if filename r = fn then upd r else r) rows) = []"
  by (induction rows) auto

lemma upsert_existing_row:
  "distinct (map filename rows) \<Longrightarrow> \<exists>r \<in> set rows. filename r = fn \<Longrightarrow>
     filter (\<lambda>r. filename r = fn)
            (map (\<lambda>r. if filename r = fn then r\<lparr>reg_time := now, checksum := hash\<rparr> else r) rows)
       = [\<lparr>filename = fn, reg_time = now, checksum = hash\<rparr>]"
proof (induction rows)
  case Nil
  then show ?case by simp
next
  case (Cons r rows)
  show ?case
  proof (cases "filename r = fn")
    case True
    with Cons.prems(1) have "fn \<notin> filename ` set rows" by simp
    then have "\<forall>r' \<in> set rows. filename r' \<noteq> fn" by blast
    then have "filter (\<lambda>r. filename r = fn)
            (map (\<lambda>r. if filename r = fn then r\<lparr>reg_time := now, checksum := hash\<rparr> else r) rows) = []"
      by (rule filter_map_other)
    with True show ?thesis by (cases r) simp
  next
    case False
    with Cons show ?thesis by auto
  qed
qed

lemma insert_source_file_row:
  assumes "distinct (map filename (source_file db))"
    and "insert_source_file now fn hash db = Inr db'"
  shows "filter (\<lambda>r. filename r = fn) (source_file db')
           = [\<lparr>filename = fn, reg_time = now, checksum = hash\<rparr>]
         \<and> distinct (map filename (source_file db'))"
proof (cases "\<exists>r \<in> set (source_file db). filename r = fn")
  case True
  with assms(2) have db': "source_file db' =
      map (\<lambda>r. if filename r = fn then r\<lparr>reg_time := now, checksum := hash\<rparr> else r) (source_file db)"
    by (auto simp: insert_source_file_def)
  have "map filename (map (\<lambda>r. if filename r = fn then r\<lparr>reg_time := now, checksum := hash\<rparr> else r)
                          (source_file db)) = map filename (source_file db)"
    by (induction "source_file db") auto
  with assms(1) have "distinct (map filename (source_file db'))"
    unfolding db' by metis
  moreover from upsert_existing_row [where now = now and hash = hash, OF assms(1) True]
  have "filter (\<lambda>r. filename r = fn) (source_file db')
           = [\<lparr>filename = fn, reg_time = now, checksum = hash\<rparr>]"
    unfolding db' .
  ultimately show ?thesis by blast
next
  case False
  with assms(2) have db': "source_file db' =
      source_file db @ [\<lparr>filename = fn, reg_time = now, checksum = hash\<rparr>]"
    by (auto simp: insert_source_file_def)
  from False have "filter (\<lambda>r. filename r = fn) (source_file db) = []"
    by (auto simp: filter_empty_conv)
  with False assms(1) db' show ?thesis by auto
qed

lemma insert_stage_file_source:
  "insert_stage_file st fn db = Inr db' \<Longrightarrow> source_file db' = source_file db"
  by (auto simp: insert_stage_file_def split: if_splits)

lemma save_file_ok:
  assumes "save_file E path stage c = (Inr (), c')"
  shows "\<exists>content db1. fs E path = Some content
           \<and> insert_source_file (clock E) (as_posix E path)
                (md5_hexdigest E (hash_blocks (md5_update E) (md5_new E) content)) (current_db c)
               = Inr db1
           \<and> source_file (current_db c') = source_file db1"
proof -
  from assms obtain content where fsp: "fs E path = Some content"
    by (auto simp: save_file_def split: option.splits)
  let ?hash = "md5_hexdigest E (hash_blocks (md5_update E) (md5_new E) content)"
  let ?act = "insert_source_file (clock E) (as_posix E path) ?hash"
  from assms fsp obtain c1 where
    e1: "cur_execute ''INSERT INTO source_file'' ?act c = (Inr (), c1)"
    and rest: "(case stage of None \<Rightarrow> (Inr (), c1)
                | Some st \<Rightarrow> if st \<noteq> [] then
                      cur_execute ''INSERT INTO stage_file'' (insert_stage_file st (as_posix E path)) c1
                    else (Inr (), c1)) = (Inr (), c')"
    by (auto simp: save_file_def Let_def split: prod.splits sum.splits)
  from cur_execute_ok [where act = ?act, OF e1]
  have d1: "?act (current_db c) = Inr (current_db c1)" by blast
  have "source_file (current_db c') = source_file (current_db c1)"
  proof (cases stage)
    case None
    with rest show ?thesis by simp
  next
    case (Some st)
    show ?thesis
    proof (cases "st = []")
      case True
      with Some rest show ?thesis by simp
    next
      case False
      with Some rest have
        "cur_execute ''INSERT INTO stage_file'' (insert_stage_file st (as_posix E path)) c1 = (Inr (), c')"
        by simp
      from cur_execute_ok [where act = "insert_stage_file st (as_posix E path)", OF this]
      have "insert_stage_file st (as_posix E path) (current_db c1) = Inr (current_db c')" by blast
      then show ?thesis by (rule insert_stage_file_source)
    qed
  qed
  with fsp d1 show ?thesis by blast
qed

text \<open>
  Claim C9. Two calls of \<^verbatim>\<open>save_file\<close> for the same path that both return, the second
  with other files and another clock, leave exactly one row of \<^verbatim>\<open>source_file\<close> for the
  path (in its normalised form); the row has the time of the second call and the
  checksum of the content that the second call read. The file names of the table are
  distinct before the calls, as the primary key of the table has it.
\<close>

theorem save_file_upsert:
  assumes "distinct (map filename (source_file (current_db c)))"
    and "save_file E path stage1 c = (Inr (), c1)"
    and "save_file (E\<lparr>fs := fs2, clock := now2\<rparr>) path stage2 c1 = (Inr (), c2)"
  shows "\<exists>content2. fs2 path = Some content2
           \<and> filter (\<lambda>r. filename r = as_posix E path) (source_file (current_db c2))
               = [\<lparr>filename = as_posix E path, reg_time = now2,
                    checksum = md5_hexdigest E (hash_blocks (md5_update E) (md5_new E) content2)\<rparr>]"
proof -
  from save_file_ok [OF assms(2)] obtain content1 db1 where
    i1: "insert_source_file (clock E) (as_posix E path)
           (md5_hexdigest E (hash_blocks (md5_update E) (md5_new E) content1)) (current_db c) = Inr db1"
    and s1: "source_file (current_db c1) = source_file db1"
    by blast
  from insert_source_file_row [OF assms(1) i1] s1
  have pk1: "distinct (map filename (source_file (current_db c1)))" by simp
  from save_file_ok [OF assms(3)] obtain content2 db2 where
    f2: "fs2 path = Some content2"
    and i2: "insert_source_file now2 (as_posix E path)
           (md5_hexdigest E (hash_blocks (md5_update E) (md5_new E) content2)) (current_db c1) = Inr db2"
    and s2: "source_file (current_db c2) = source_file db2"
    by auto
  from insert_source_file_row [OF pk1 i2] s2 f2 show ?thesis by simp
qed

theorem save_file_upsert_witness:
  "distinct (map filename (source_file (current_db fresh_connection)))
   \<and> save_file toy_env ''f.txt'' None fresh_connection = (Inr (), registered_once)
   \<and> source_file (current_db registered_once)
       = [\<lparr>filename = ''f.txt'', reg_time = 5, checksum = ''md5:abc''\<rparr>]
   \<and> save_file toy_env2 ''f.txt'' None registered_once = (Inr (), registered_twice)
   \<and> source_file (current_db registered_twice)
       = [\<lparr>filename = ''f.txt'', reg_time = 9, checksum = ''md5:abcdef''\<rparr>]
   \<and> filter (\<lambda>r. filename r = ''f.txt'') (source_file (current_db registered_twice))
       = [\<lparr>filename = ''f.txt'', reg_time = 9, checksum = ''md5:abcdef''\<rparr>]"
proof -
  have a0: "distinct (map filename (source_file (current_db fresh_connection)))" by code_simp
  have a1: "save_file toy_env ''f.txt'' None fresh_connection = (Inr (), registered_once)"
    by (simp add: eval_ledger toy_env_def registered_once_def)
  have a2: "save_file (toy_env\<lparr>fs := (\<lambda>p. if p = ''f.txt'' then Some ''abcdef'' else None),
                               clock := 9\<rparr>) ''f.txt'' None registered_once
              = (Inr (), registered_twice)"
    by (simp add: eval_ledger toy_env_def registered_once_def registered_twice_def)
  have a3: "source_file (current_db registered_once)
       = [\<lparr>filename = ''f.txt'', reg_time = 5, checksum = ''md5:abc''\<rparr>]" by code_simp
  have a4: "source_file (current_db registered_twice)
       = [\<lparr>filename = ''f.txt'', reg_time = 9, checksum = ''md5:abcdef''\<rparr>]" by code_simp
  from save_file_upsert [OF a0 a1 a2] obtain content2 where
    "filter (\<lambda>r. filename r = as_posix toy_env ''f.txt'') (source_file (current_db registered_twice))
       = [\<lparr>filename = as_posix toy_env ''f.txt'', reg_time = 9,
            checksum = md5_hexdigest toy_env
               (hash_blocks (md5_update toy_env) (md5_new toy_env) content2)\<rparr>]"
    by blast
  then have "filter (\<lambda>r. filename r = ''f.txt'') (source_file (current_db registered_twice))
       = [\<lparr>filename = ''f.txt'', reg_time = 9, checksum = ''md5:abcdef''\<rparr>]"
    using a4 by simp
  with a0 a1 a2 a3 a4 show ?thesis by (simp add: toy_env2_def)
qed

end
